theory Spec2Isabelle
  imports Main "HOL-Library.Word" "HOL-Library.Multiset"
begin

section \<open>Visibility engine: data model\<close>

text \<open>
  The types of \<^verbatim>\<open>visibility/types.ts\<close>. A TypeScript \<^verbatim>\<open>T | null\<close> and an optional
  field are both \<open>T option\<close>; where the source tells \<^verbatim>\<open>undefined\<close> from \<^verbatim>\<open>null\<close>
  the model says which one \<open>None\<close> stands for. Identifiers are strings, as in
  \<^verbatim>\<open>Map<string, DiscordAccount>\<close>.
\<close>

record ServerVisibilityContext =
  considerAllMessagesPublicEnabled :: bool
  anonymizeMessagesEnabled :: bool

record UserVisibilityContext =
  canPubliclyDisplayMessages :: bool

record VisibilityContext =
  server :: ServerVisibilityContext
  user :: "UserVisibilityContext option"

text \<open>\<^verbatim>\<open>DiscordAccount\<close>: \<open>account_avatar = None\<close> is an absent (undefined) avatar.\<close>

record DiscordAccount =
  account_id :: string
  account_name :: string
  account_avatar :: "string option"

text \<open>
  \<^verbatim>\<open>SanitizedAuthor = VisibleAuthor | AnonymousAuthor\<close>: both variants have the same four
  fields, so one record carries them; \<open>author_avatar = None\<close> is \<^verbatim>\<open>null\<close>.
\<close>

record SanitizedAuthor =
  author_id :: string
  author_name :: string
  author_avatar :: "string option"
  author_public :: bool

text \<open>
  \<^verbatim>\<open>Message\<close>, with the fields the visibility code reads (\<open>authorId\<close>, \<open>serverId\<close>)
  and the identifying payload; \<^verbatim>\<open>SanitizedMessage = Message & { public: boolean }\<close>
  is the record extension.
\<close>

record Message =
  message_id :: string
  authorId :: string
  serverId :: string
  channelId :: string
  content :: string

record SanitizedMessage = Message +
  message_public :: bool

record SanitizedPair =
  message :: SanitizedMessage
  author :: "SanitizedAuthor option"

section \<open>Visibility engine: compute\<close>

text \<open>\<^verbatim>\<open>x ?? false\<close> on an optional boolean.\<close>

definition computeServerVisibility :: "bool option \<Rightarrow> bool option \<Rightarrow> ServerVisibilityContext" where
  "computeServerVisibility considerAll anonymize =
     \<lparr> considerAllMessagesPublicEnabled = (case considerAll of None \<Rightarrow> False | Some b \<Rightarrow> b),
       anonymizeMessagesEnabled = (case anonymize of None \<Rightarrow> False | Some b \<Rightarrow> b) \<rparr>"

definition computeUserVisibility :: "bool option \<Rightarrow> UserVisibilityContext option" where
  "computeUserVisibility canDisplay =
     (case canDisplay of
        None \<Rightarrow> None
      | Some b \<Rightarrow> Some \<lparr> canPubliclyDisplayMessages = b \<rparr>)"

text \<open>
  \<^verbatim>\<open>if (serverVisibility.considerAllMessagesPublicEnabled) return true;\<close>
  \<^verbatim>\<open>return userVisibility?.canPubliclyDisplayMessages ?? false;\<close>
\<close>

definition isMessagePublic :: "ServerVisibilityContext \<Rightarrow> UserVisibilityContext option \<Rightarrow> bool" where
  "isMessagePublic serverVisibility userVisibility =
     (if considerAllMessagesPublicEnabled serverVisibility then True
      else (case userVisibility of
              None \<Rightarrow> False
            | Some u \<Rightarrow> canPubliclyDisplayMessages u))"

definition shouldAnonymizeAuthor ::
  "ServerVisibilityContext \<Rightarrow> UserVisibilityContext option \<Rightarrow> bool \<Rightarrow> bool" where
  "shouldAnonymizeAuthor serverVisibility userVisibility isPublic =
     (if \<not> isPublic then True
      else anonymizeMessagesEnabled serverVisibility)"

section \<open>Visibility engine: anonymize\<close>

text \<open>
  \<^verbatim>\<open>simpleHash\<close> keeps its accumulator an int32: \<^verbatim>\<open>hash << 5\<close> is a 32-bit shift,
  the subtraction and addition are exact on numbers, and \<^verbatim>\<open>hash & hash\<close> converts the
  sum back to int32. \<open>toInt32\<close> is that conversion; the accumulator is the signed value.
\<close>

definition toInt32 :: "int \<Rightarrow> int" where
  "toInt32 x = sint (word_of_int x :: 32 word)"

fun simpleHash_loop :: "int \<Rightarrow> string \<Rightarrow> int" where
  "simpleHash_loop hash [] = hash"
| "simpleHash_loop hash (c # cs) =
     simpleHash_loop (toInt32 (toInt32 (hash * 2 ^ 5) - hash + int (of_char c))) cs"

definition simpleHash :: "string \<Rightarrow> int" where
  "simpleHash str = \<bar>simpleHash_loop 0 str\<bar>"

definition adjectives :: "string list" where
  "adjectives = [''Anonymous'', ''Unknown'', ''Mysterious'', ''Hidden'',
                 ''Secret'', ''Private'', ''Unnamed'', ''Unidentified'']"

definition generateAnonymousName :: "string \<Rightarrow> string" where
  "generateAnonymousName authorId' =
     (let hash = simpleHash authorId';
          adjective = adjectives ! nat (hash mod int (length adjectives))
      in adjective @ '' User'')"

text \<open>\<^verbatim>\<open>anonymizeAuthor\<close> returns \<^verbatim>\<open>{ id, name, avatar: null }\<close>.\<close>

definition anonymizeAuthor :: "DiscordAccount \<Rightarrow> string \<times> string \<times> string option" where
  "anonymizeAuthor a = (account_id a, generateAnonymousName (account_id a), None)"

section \<open>Visibility engine: transform\<close>

definition applyVisibilityToAuthor ::
  "DiscordAccount option \<Rightarrow> VisibilityContext \<Rightarrow> bool \<Rightarrow> SanitizedAuthor option" where
  "applyVisibilityToAuthor author' visibility isPublic =
     (case author' of
        None \<Rightarrow> None
      | Some a \<Rightarrow>
          (let shouldAnonymize = shouldAnonymizeAuthor (server visibility) (user visibility) isPublic
           in if shouldAnonymize then
                (case anonymizeAuthor a of
                   (i, n, av) \<Rightarrow>
                     Some \<lparr> author_id = i, author_name = n, author_avatar = av,
                            author_public = False \<rparr>)
              else
                Some \<lparr> author_id = account_id a, author_name = account_name a,
                       author_avatar = (case account_avatar a of None \<Rightarrow> None | Some x \<Rightarrow> Some x),
                       author_public = isPublic \<rparr>))"

text \<open>
  The body of the \<^verbatim>\<open>messages.map\<close> callback of \<^verbatim>\<open>applyVisibilityToMessages\<close>.
  \<^verbatim>\<open>authorMap.get(k) ?? null\<close> is the lookup itself; the visibility map stores
  \<^verbatim>\<open>UserVisibilityContext | null\<close>, so its lookup has two ways of being null.
\<close>

definition sanitizeMessage ::
  "ServerVisibilityContext \<Rightarrow> (string \<rightharpoonup> DiscordAccount)
     \<Rightarrow> (string \<rightharpoonup> UserVisibilityContext option) \<Rightarrow> Message \<Rightarrow> SanitizedPair" where
  "sanitizeMessage serverVisibility authorMap authorVisibilityMap m =
     (let author' = authorMap (authorId m);
          authorVisibility = (case authorVisibilityMap (authorId m) of None \<Rightarrow> None | Some v \<Rightarrow> v);
          isPublic = isMessagePublic serverVisibility authorVisibility;
          visibility = \<lparr> server = serverVisibility, user = authorVisibility \<rparr>;
          authorVisibilityResult = applyVisibilityToAuthor author' visibility isPublic
      in \<lparr> message = Message.extend m (SanitizedMessage.fields isPublic),
           author = authorVisibilityResult \<rparr>)"

definition applyVisibilityToMessages ::
  "Message list \<Rightarrow> ServerVisibilityContext \<Rightarrow> (string \<rightharpoonup> DiscordAccount)
     \<Rightarrow> (string \<rightharpoonup> UserVisibilityContext option) \<Rightarrow> SanitizedPair list" where
  "applyVisibilityToMessages messages serverVisibility authorMap authorVisibilityMap =
     map (sanitizeMessage serverVisibility authorMap authorVisibilityMap) messages"

section \<open>Visibility engine: context fetch and grouping\<close>

text \<open>
  \<^verbatim>\<open>convex/shared/visibility.ts\<close> repeats the compute, anonymize and transform functions
  above word for word and adds the functions that read the visibility context from the
  database. The database is read only, so the query context is a snapshot: the
  \<^verbatim>\<open>by_serverId\<close> index of \<^verbatim>\<open>serverPreferences\<close> (read through \<^verbatim>\<open>getOneFrom\<close>), and the
  helper \<^verbatim>\<open>findUserServerSettingsById(ctx, userId, serverId)\<close> of \<^verbatim>\<open>./shared\<close>, taken
  as a parameter. A missing document is \<open>None\<close>; an optional preference field that is
  unset is \<open>None\<close>.
\<close>

record ServerPreferences =
  pref_considerAllMessagesPublicEnabled :: "bool option"
  pref_anonymizeMessagesEnabled :: "bool option"

record UserServerSettings =
  settings_canPubliclyDisplayMessages :: bool

record QueryCtx =
  serverPreferences_by_serverId :: "string \<Rightarrow> ServerPreferences option"
  findUserServerSettingsById :: "string \<Rightarrow> string \<Rightarrow> UserServerSettings option"

definition getServerVisibilityContext :: "QueryCtx \<Rightarrow> string \<Rightarrow> ServerVisibilityContext" where
  "getServerVisibilityContext ctx sid =
     (let serverPreferences = serverPreferences_by_serverId ctx sid
      in computeServerVisibility
           (case serverPreferences of None \<Rightarrow> None | Some p \<Rightarrow> pref_considerAllMessagesPublicEnabled p)
           (case serverPreferences of None \<Rightarrow> None | Some p \<Rightarrow> pref_anonymizeMessagesEnabled p))"

text \<open>
  \<^verbatim>\<open>Array.from(new Set(xs))\<close>: a \<^verbatim>\<open>Set\<close> keeps insertion order and ignores a value it
  already holds.
\<close>

definition array_from_set :: "'a list \<Rightarrow> 'a list" where
  "array_from_set xs = fold (\<lambda>x acc. if x \<in> set acc then acc else acc @ [x]) xs []"

definition getAuthorVisibilityContexts ::
  "QueryCtx \<Rightarrow> string \<Rightarrow> string list \<Rightarrow> (string \<rightharpoonup> UserVisibilityContext option)" where
  "getAuthorVisibilityContexts ctx sid authorIds =
     (let uniqueAuthorIds = array_from_set authorIds
      in fold (\<lambda>aid authorVisibilityMap.
                 let userSettings = findUserServerSettingsById ctx aid sid;
                     userVisibility = computeUserVisibility
                       (case userSettings of None \<Rightarrow> None
                        | Some s \<Rightarrow> Some (settings_canPubliclyDisplayMessages s))
                 in authorVisibilityMap(aid \<mapsto> userVisibility))
           uniqueAuthorIds Map.empty)"

text \<open>
  \<^verbatim>\<open>messagesByServer\<close> is a \<^verbatim>\<open>Map\<close> that is iterated later, so its insertion order
  matters: it is the list of its entries. \<open>map_set\<close> is \<^verbatim>\<open>Map.prototype.set\<close> (a
  present key keeps its position, a new key goes last), \<open>map_has\<close> is \<^verbatim>\<open>has\<close> and
  \<open>map_of\<close> is \<^verbatim>\<open>get\<close>. \<^verbatim>\<open>get(serverId)!.push(message)\<close> extends the stored array in
  place.
\<close>

fun map_set :: "('k \<times> 'v) list \<Rightarrow> 'k \<Rightarrow> 'v \<Rightarrow> ('k \<times> 'v) list" where
  "map_set [] k v = [(k, v)]"
| "map_set ((k', v') # es) k v = (if k' = k then (k, v) # es else (k', v') # map_set es k v)"

definition map_has :: "('k \<times> 'v) list \<Rightarrow> 'k \<Rightarrow> bool" where
  "map_has es k = (map_of es k \<noteq> None)"

definition group_step :: "Message \<Rightarrow> (string \<times> Message list) list \<Rightarrow> (string \<times> Message list) list" where
  "group_step m messagesByServer =
     (let sid = serverId m;
          byServer = (if \<not> map_has messagesByServer sid then map_set messagesByServer sid []
                      else messagesByServer)
      in case map_of byServer sid of
           None \<Rightarrow> byServer
         | Some serverMessages \<Rightarrow> map_set byServer sid (serverMessages @ [m]))"

text \<open>\<^verbatim>\<open>new Map(entries)\<close>: a later entry for a key replaces an earlier one.\<close>

definition map_from_entries :: "('k \<times> 'v) list \<Rightarrow> ('k \<rightharpoonup> 'v)" where
  "map_from_entries es = fold (\<lambda>(k, v) m. m(k \<mapsto> v)) es Map.empty"

text \<open>
  The callback mapped over \<^verbatim>\<open>messagesByServer.entries()\<close>. The two context reads run
  under \<^verbatim>\<open>Promise.all\<close>; both only read the snapshot.
\<close>

definition sanitizeServerGroup ::
  "QueryCtx \<Rightarrow> (string \<rightharpoonup> DiscordAccount) \<Rightarrow> string \<times> Message list \<Rightarrow> SanitizedPair list" where
  "sanitizeServerGroup ctx authorMap entry =
     (case entry of (sid, serverMessages) \<Rightarrow>
        (let serverAuthorIds = array_from_set (map authorId serverMessages);
             serverVisibility = getServerVisibilityContext ctx sid;
             authorVisibilityMap = getAuthorVisibilityContexts ctx sid serverAuthorIds;
             serverAuthorMap = map_from_entries
               (List.map_filter (\<lambda>i. case authorMap i of None \<Rightarrow> None | Some a \<Rightarrow> Some (i, a))
                  serverAuthorIds)
         in applyVisibilityToMessages serverMessages serverVisibility serverAuthorMap
              authorVisibilityMap))"

definition getSanitizedMessages ::
  "QueryCtx \<Rightarrow> Message list \<Rightarrow> (string \<rightharpoonup> DiscordAccount) \<Rightarrow> SanitizedPair list" where
  "getSanitizedMessages ctx messages authorMap =
     (if length messages = 0 then []
      else
        (let messagesByServer = fold group_step messages [];
             sanitizedMessagesByServer = map (sanitizeServerGroup ctx authorMap) messagesByServer
         in concat sanitizedMessagesByServer))"

text \<open>The message a sanitized pair was made from: its fields without the public flag.\<close>

definition underlying :: "SanitizedPair \<Rightarrow> Message" where
  "underlying r = Message.truncate (message r)"

section \<open>Live query cache: the cache key\<close>

text \<open>
  \<^verbatim>\<open>watchRequest\<close> computes \<^verbatim>\<open>JSON.stringify({ functionName, args })\<close>. The arguments
  of a query are a value of \<open>json\<close>: undefined, null, booleans, numbers, strings,
  byte buffers (\<^verbatim>\<open>ArrayBuffer\<close>), arrays and objects. A bigint is not among them:
  \<^verbatim>\<open>JSON.stringify\<close> throws a \<^verbatim>\<open>TypeError\<close> on it, and no request is built.

  A number is negative zero, NaN, an infinity, or \<open>Finite s n\<close>, which stands for
  the number whose shortest decimal that reads back as the same double has the
  digits of \<open>\<bar>s\<bar>\<close>, the sign of \<open>s\<close>, and the decimal point after the first \<open>n\<close> of
  these digits: with \<open>k\<close> digits it is \<open>s * 10 ^ (n - k)\<close>. These are the \<open>s\<close>, \<open>n\<close>
  and \<open>k\<close> of \<^verbatim>\<open>Number::toString\<close>; \<open>10\<close> is \<open>Finite 1 2\<close>, \<open>1.5\<close> is \<open>Finite 15 1\<close>,
  and \<open>2 ^ 64\<close> is \<open>Finite 18446744073709552 20\<close>. Zero is \<open>Finite 0 0\<close>. Every finite
  double other than negative zero is one such pair with \<open>k\<close> as small as possible,
  which is what \<open>canonical\<close> below says.

  An object is the list of its own enumerable string-keyed properties in
  enumeration order: the keys that are array indices first, in ascending numeric
  order, then the other keys in the order in which they were inserted. A string is
  a list of code units below 256.
\<close>

datatype jsnumber = Finite int int | NegZero | NaN | PosInfinity | NegInfinity

datatype json =
    JUndefined
  | JNull
  | JBool bool
  | JNum jsnumber
  | JStr string
  | JBytes "8 word list"
  | JArr "json list"
  | JObj "(string \<times> json) list"

text \<open>
  \<^verbatim>\<open>QuoteJSONString\<close> of ECMA-262: backspace, tab, line feed, form feed, carriage
  return, the double quote (code \<open>0x22\<close>) and the backslash (code \<open>0x5C\<close>) have
  two-character escapes, every other code unit below \<open>0x20\<close> is written as a
  backslash, \<^verbatim>\<open>u00\<close> and two lowercase hexadecimal digits, and everything else stands
  for itself.
\<close>

definition hexdigit :: "nat \<Rightarrow> char" where
  "hexdigit n = (if n < 10 then char_of (48 + n) else char_of (87 + n))"

definition UnicodeEscape :: "char \<Rightarrow> string" where
  "UnicodeEscape c =
     [CHR 0x5C, CHR ''u'', CHR ''0'', CHR ''0'',
      hexdigit ((of_char c :: nat) div 16), hexdigit ((of_char c :: nat) mod 16)]"

definition quote_char :: "char \<Rightarrow> string" where
  "quote_char c =
     (if c = CHR 0x08 then [CHR 0x5C, CHR ''b'']
      else if c = CHR 0x09 then [CHR 0x5C, CHR ''t'']
      else if c = CHR 0x0A then [CHR 0x5C, CHR ''n'']
      else if c = CHR 0x0C then [CHR 0x5C, CHR ''f'']
      else if c = CHR 0x0D then [CHR 0x5C, CHR ''r'']
      else if c = CHR 0x22 then [CHR 0x5C, CHR 0x22]
      else if c = CHR 0x5C then [CHR 0x5C, CHR 0x5C]
      else if (of_char c :: nat) < 32 then UnicodeEscape c
      else [c])"

definition QuoteJSONString :: "string \<Rightarrow> string" where
  "QuoteJSONString s = CHR 0x22 # concat (map quote_char s) @ [CHR 0x22]"

text \<open>
  \<^verbatim>\<open>Number::toString\<close> in radix 10, on the digits \<open>s\<close> and the position \<open>n\<close> of the
  decimal point, with \<open>k\<close> the number of digits: the digits followed by \<open>n - k\<close>
  zeros when \<open>k \<le> n \<le> 21\<close>; the digits with a point after the first \<open>n\<close> when
  \<open>0 < n \<le> 21\<close>; a zero, a point, \<open>- n\<close> zeros and the digits when \<open>- 6 < n \<le> 0\<close>;
  otherwise the first digit, a point and the other digits if there are any, the
  letter e, the sign of \<open>n - 1\<close> and the digits of its magnitude.
\<close>

fun digits :: "nat \<Rightarrow> string" where
  "digits n = (if n < 10 then [char_of (48 + n)] else digits (n div 10) @ [char_of (48 + n mod 10)])"

declare digits.simps [simp del]

definition ExponentPart :: "int \<Rightarrow> string" where
  "ExponentPart e = CHR ''e'' # (if e < 0 then CHR ''-'' else CHR ''+'') # digits (nat \<bar>e\<bar>)"

definition PositiveToString :: "nat \<Rightarrow> int \<Rightarrow> string" where
  "PositiveToString s n =
     (let ds = digits s; k = int (length ds)
      in if k \<le> n \<and> n \<le> 21 then ds @ replicate (nat (n - k)) CHR ''0''
         else if 0 < n \<and> n \<le> 21 then take (nat n) ds @ CHR ''.'' # drop (nat n) ds
         else if - 6 < n \<and> n \<le> 0 then ''0.'' @ replicate (nat (- n)) CHR ''0'' @ ds
         else if k = 1 then ds @ ExponentPart (n - 1)
         else take 1 ds @ CHR ''.'' # drop 1 ds @ ExponentPart (n - 1))"

definition NumberToString :: "int \<Rightarrow> int \<Rightarrow> string" where
  "NumberToString s n =
     (if s = 0 then ''0''
      else if s < 0 then CHR ''-'' # PositiveToString (nat (- s)) n
      else PositiveToString (nat s) n)"

text \<open>
  \<^verbatim>\<open>SerializeJSONProperty\<close>, \<^verbatim>\<open>SerializeJSONArray\<close> and \<^verbatim>\<open>SerializeJSONObject\<close> without
  a replacer or a gap. The result \<open>None\<close> is undefined. A number that is not finite
  is written as null, and negative zero as 0. A byte buffer has no enumerable
  property of its own and is written as an empty object. An array element whose
  serialisation is undefined is written as null; an object property whose
  serialisation is undefined is left out. The elements, or the members (quoted key,
  colon, value), are joined by commas.
\<close>

fun join_comma :: "string list \<Rightarrow> string" where
  "join_comma [] = []"
| "join_comma [x] = x"
| "join_comma (x # y # ys) = x @ CHR '','' # join_comma (y # ys)"

fun SerializeJSONProperty :: "json \<Rightarrow> string option" where
  "SerializeJSONProperty JUndefined = None"
| "SerializeJSONProperty JNull = Some ''null''"
| "SerializeJSONProperty (JBool b) = Some (if b then ''true'' else ''false'')"
| "SerializeJSONProperty (JNum x) =
     Some (case x of Finite s n \<Rightarrow> NumberToString s n | NegZero \<Rightarrow> ''0'' | _ \<Rightarrow> ''null'')"
| "SerializeJSONProperty (JStr s) = Some (QuoteJSONString s)"
| "SerializeJSONProperty (JBytes b) = Some ''{}''"
| "SerializeJSONProperty (JArr xs) =
     Some (CHR ''['' #
           join_comma (map (\<lambda>x. case SerializeJSONProperty x of None \<Rightarrow> ''null'' | Some t \<Rightarrow> t) xs)
           @ [CHR '']''])"
| "SerializeJSONProperty (JObj kvs) =
     Some (CHR ''{'' #
           join_comma (concat (map (\<lambda>kv. case SerializeJSONProperty (snd kv) of
                                            None \<Rightarrow> []
                                          | Some t \<Rightarrow> [QuoteJSONString (fst kv) @ CHR '':'' # t]) kvs))
           @ [CHR ''}''])"

definition SerializeJSONObject :: "(string \<times> json) list \<Rightarrow> string" where
  "SerializeJSONObject kvs =
     CHR ''{'' #
     join_comma (concat (map (\<lambda>kv. case SerializeJSONProperty (snd kv) of
                                      None \<Rightarrow> []
                                    | Some t \<Rightarrow> [QuoteJSONString (fst kv) @ CHR '':'' # t]) kvs))
     @ [CHR ''}'']"

text \<open>
  A query is identified by its function reference; \<^verbatim>\<open>getFunctionName\<close> reads the name
  it refers to. The object literal of \<^verbatim>\<open>watchRequest\<close> has the two properties
  \<^verbatim>\<open>functionName\<close> and \<^verbatim>\<open>args\<close>, inserted in this order.
\<close>

datatype FunctionReference = FunctionReference string

fun getFunctionName :: "FunctionReference \<Rightarrow> string" where
  "getFunctionName (FunctionReference n) = n"

record WatchRequest =
  query :: FunctionReference
  args :: json
  cacheKey :: string

definition watchRequest :: "FunctionReference \<Rightarrow> json \<Rightarrow> WatchRequest" where
  "watchRequest q a =
     (let functionName = getFunctionName q;
          key = SerializeJSONObject [(''functionName'', JStr functionName), (''args'', a)]
      in \<lparr> query = q, args = a, cacheKey = key \<rparr>)"

text \<open>
  Structural equality of argument values, the way two object literals with the same
  properties are the same arguments: arrays are equal elementwise, objects are equal
  when they have as many properties and each property of the first has a
  structurally equal value under the same key in the second, whatever the order;
  numbers, strings, booleans and byte buffers are equal when they are the same
  value. \<open>same_order\<close> says that two values of the same shape enumerate the keys of
  every object in the same order.
\<close>

fun struct_eq :: "json \<Rightarrow> json \<Rightarrow> bool" where
  "struct_eq JUndefined JUndefined = True"
| "struct_eq JNull JNull = True"
| "struct_eq (JBool a) (JBool b) = (a = b)"
| "struct_eq (JNum a) (JNum b) = (a = b)"
| "struct_eq (JStr a) (JStr b) = (a = b)"
| "struct_eq (JBytes a) (JBytes b) = (a = b)"
| "struct_eq (JArr xs) (JArr ys) = list_all2 struct_eq xs ys"
| "struct_eq (JObj xs) (JObj ys) =
     (length xs = length ys \<and>
      list_all (\<lambda>kv. case map_of ys (fst kv) of None \<Rightarrow> False | Some v' \<Rightarrow> struct_eq (snd kv) v') xs)"
| "struct_eq _ _ = False"


text \<open>
  The values that a program can build. A key is an array index when it is the
  decimal numeral, without leading zeros, of a number below \<open>2 ^ 32 - 1\<close>.
  \<open>enumeration_ordered\<close> says that a list of keys is in enumeration order: array
  indices first and ascending, then the keys that are no array index. \<open>wf_json\<close>
  says that every object lists each key once and in enumeration order, and that
  every finite number is given by its shortest digits: no trailing zero in \<open>s\<close>,
  and zero written \<open>Finite 0 0\<close>.
\<close>

definition is_digit :: "char \<Rightarrow> bool" where
  "is_digit c = (48 \<le> (of_char c :: nat) \<and> (of_char c :: nat) < 58)"

definition undigits :: "string \<Rightarrow> nat" where
  "undigits cs = foldl (\<lambda>a c. 10 * a + (of_char c - 48)) 0 cs"

definition is_array_index :: "string \<Rightarrow> bool" where
  "is_array_index k =
     (k \<noteq> [] \<and> list_all is_digit k \<and> (k = ''0'' \<or> hd k \<noteq> CHR ''0'') \<and>
      undigits k < 2 ^ 32 - 1)"

definition enumeration_ordered :: "string list \<Rightarrow> bool" where
  "enumeration_ordered ks =
     (list_all (\<lambda>k. \<not> is_array_index k) (dropWhile is_array_index ks) \<and>
      sorted_wrt (<) (map undigits (takeWhile is_array_index ks)))"

definition canonical :: "int \<Rightarrow> int \<Rightarrow> bool" where
  "canonical s n = (if s = 0 then n = 0 else s mod 10 \<noteq> 0)"

fun wf_json :: "json \<Rightarrow> bool" where
  "wf_json (JNum x) = (case x of Finite s n \<Rightarrow> canonical s n | _ \<Rightarrow> True)"
| "wf_json (JArr xs) = list_all wf_json xs"
| "wf_json (JObj kvs) =
     (distinct (map fst kvs) \<and> enumeration_ordered (map fst kvs) \<and>
      list_all (\<lambda>kv. wf_json (snd kv)) kvs)"
| "wf_json _ = True"


section \<open>Live query cache: state and operations\<close>

text \<open>
  A query result is \<^verbatim>\<open>T | undefined\<close>, and \<^verbatim>\<open>T\<close> may itself admit \<^verbatim>\<open>null\<close>; the
  \<^verbatim>\<open>??\<close> operator takes its right operand for both.
\<close>

datatype 'v jsval = Undefined | Null | Value 'v

definition nullish_coalesce :: "'v jsval \<Rightarrow> 'v jsval \<Rightarrow> 'v jsval" where
  "nullish_coalesce a b = (case a of Undefined \<Rightarrow> b | Null \<Rightarrow> b | Value v \<Rightarrow> Value v)"

datatype ConvexError = ConvexError string

text \<open>
  The backend client is outside the repository. What the cache needs of it is the
  answer to \<^verbatim>\<open>client.query\<close> (a value or a \<^verbatim>\<open>ConvexError\<close>) and whether
  \<^verbatim>\<open>client.onUpdate\<close> establishes the subscription (\<open>None\<close>) or fails. Every call made
  on the client is appended to \<open>upstreamCalls\<close>, so that a fetch, a subscription and
  an unsubscription can be observed.
\<close>

datatype UpstreamCall =
    QueryCall FunctionReference json
  | OnUpdateCall FunctionReference json
  | UnsubscribeCall nat

record 'v ConvexClient =
  client_query :: "FunctionReference \<Rightarrow> json \<Rightarrow> ConvexError + 'v jsval"
  client_onUpdate :: "FunctionReference \<Rightarrow> json \<Rightarrow> ConvexError option"

text \<open>
  Objects are held in stores indexed by reference, so that reference identity of a
  \<^verbatim>\<open>LiveData\<close> is equality of references. One reference is drawn per created watch
  and names the three things created together: the \<^verbatim>\<open>LiveData\<close> cell (\<open>heap\<close>), the
  variables \<^verbatim>\<open>currentValue\<close> and \<^verbatim>\<open>callbacks\<close> its closures capture (\<open>closures\<close>), and
  the upstream subscription (\<open>subscriptions\<close>, mapping a live subscription to the
  closure its update callback writes).

  \<open>ld_unsubscribe\<close> is the cell's \<^verbatim>\<open>unsubscribe\<close> field: \<open>Some c\<close> is the function that
  deletes the cell's callback from the callback set of closure \<open>c\<close>, \<open>None\<close> is
  \<^verbatim>\<open>undefined\<close>. A callback in \<open>callbacks\<close> is named by the cell it updates.
  \<open>liveDataCacheKeys\<close> is the module-level \<^verbatim>\<open>WeakMap\<close>.
\<close>

record 'v LiveData =
  ld_data :: "'v jsval"
  ld_unsubscribe :: "nat option"

record 'v WatchClosure =
  currentValue :: "'v jsval"
  callbacks :: "nat list"

record ActiveWatch =
  liveData :: nat
  unsubscribe :: nat
  refCount :: int

record 'v CacheState =
  activeWatches :: "string \<rightharpoonup> ActiveWatch"
  liveDataCacheKeys :: "nat \<rightharpoonup> string"
  heap :: "nat \<rightharpoonup> 'v LiveData"
  closures :: "nat \<rightharpoonup> 'v WatchClosure"
  subscriptions :: "nat \<rightharpoonup> nat"
  upstreamCalls :: "UpstreamCall list"
  nextRef :: nat

definition initialState :: "'v CacheState" where
  "initialState = \<lparr> activeWatches = Map.empty, liveDataCacheKeys = Map.empty, heap = Map.empty,
                     closures = Map.empty, subscriptions = Map.empty, upstreamCalls = [],
                     nextRef = 0 \<rparr>"

text \<open>\<^verbatim>\<open>Set.prototype.add\<close> on an insertion-ordered set.\<close>

definition set_add :: "nat list \<Rightarrow> nat \<Rightarrow> nat list" where
  "set_add cbs cb = (if cb \<in> set cbs then cbs else cbs @ [cb])"

text \<open>
  The branch of the resolver that creates a new watch: the initial \<^verbatim>\<open>client.query\<close>, then
  \<^verbatim>\<open>client.onUpdate\<close>, then \<^verbatim>\<open>new LiveData(...)\<close> (whose constructor sets
  \<^verbatim>\<open>_data = initialData ?? getCurrentValue()\<close> and registers its callback), then
  \<^verbatim>\<open>activeWatches.set\<close> with \<^verbatim>\<open>refCount: 1\<close>. A failure of either client call is the
  exit of the request, and nothing has been stored by then.
\<close>

definition createWatch ::
  "'v ConvexClient \<Rightarrow> WatchRequest \<Rightarrow> 'v CacheState \<Rightarrow> (ConvexError + nat) \<times> 'v CacheState" where
  "createWatch client request s =
     (let s1 = s\<lparr> upstreamCalls := upstreamCalls s @ [QueryCall (query request) (args request)] \<rparr>
      in case client_query client (query request) (args request) of
           Inl err \<Rightarrow> (Inl err, s1)
         | Inr initial \<Rightarrow>
             (let s2 = s1\<lparr> upstreamCalls := upstreamCalls s1 @ [OnUpdateCall (query request) (args request)] \<rparr>
              in case client_onUpdate client (query request) (args request) of
                   Some err \<Rightarrow> (Inl err, s2)
                 | None \<Rightarrow>
                     (let r = nextRef s2;
                          closure = \<lparr> currentValue = initial, callbacks = set_add [] r \<rparr>;
                          cell = \<lparr> ld_data = nullish_coalesce initial (currentValue closure),
                                   ld_unsubscribe = Some r \<rparr>
                      in (Inr r,
                          s2\<lparr> activeWatches := (activeWatches s2)(cacheKey request \<mapsto>
                                  \<lparr> liveData = r, unsubscribe = r, refCount = 1 \<rparr>),
                              heap := (heap s2)(r \<mapsto> cell),
                              closures := (closures s2)(r \<mapsto> closure),
                              subscriptions := (subscriptions s2)(r \<mapsto> r),
                              nextRef := r + 1 \<rparr>))))"

text \<open>
  One iteration of the resolver's loop over the batch: a request whose key has an
  active watch increments that watch's \<^verbatim>\<open>refCount\<close> and completes with its
  \<^verbatim>\<open>LiveData\<close>; any other request creates a watch.
\<close>

definition watchResolver_step ::
  "'v ConvexClient \<Rightarrow> WatchRequest \<Rightarrow> 'v CacheState \<Rightarrow> (ConvexError + nat) \<times> 'v CacheState" where
  "watchResolver_step client request s =
     (case activeWatches s (cacheKey request) of
        Some existing \<Rightarrow>
          (Inr (liveData existing),
           s\<lparr> activeWatches := (activeWatches s)(cacheKey request \<mapsto>
                  existing\<lparr> refCount := refCount existing + 1 \<rparr>) \<rparr>)
      | None \<Rightarrow> createWatch client request s)"

text \<open>
  The resolver runs the loop over the requests of a batch, in order, and completes
  each request with its result. Acquisitions made one after the other each reach the
  resolver as a batch of one request.
\<close>

fun watchResolver ::
  "'v ConvexClient \<Rightarrow> WatchRequest list \<Rightarrow> 'v CacheState
     \<Rightarrow> (ConvexError + nat) list \<times> 'v CacheState" where
  "watchResolver client [] s = ([], s)"
| "watchResolver client (request # requests) s =
     (case watchResolver_step client request s of
        (result, s1) \<Rightarrow>
          (case watchResolver client requests s1 of
             (results, s2) \<Rightarrow> (result # results, s2)))"

text \<open>
  The acquire effect of \<^verbatim>\<open>watchQueryToLiveData\<close>: build the request, run it through
  the resolver (a batch of this one request, so one iteration of its loop), and on
  success record the cache key of the returned \<^verbatim>\<open>LiveData\<close> in the \<^verbatim>\<open>WeakMap\<close>. When
  the request fails the effect fails and no release is registered.
\<close>

definition acquire ::
  "'v ConvexClient \<Rightarrow> FunctionReference \<Rightarrow> json \<Rightarrow> 'v CacheState
     \<Rightarrow> (ConvexError + nat) \<times> 'v CacheState" where
  "acquire client q queryArgs s =
     (let request = watchRequest q queryArgs
      in case watchResolver_step client request s of
           (Inl err, s1) \<Rightarrow> (Inl err, s1)
         | (Inr ld, s1) \<Rightarrow>
             (Inr ld, s1\<lparr> liveDataCacheKeys := (liveDataCacheKeys s1)(ld \<mapsto> cacheKey request) \<rparr>))"

text \<open>\<^verbatim>\<open>LiveData.destroy\<close>: call \<^verbatim>\<open>this.unsubscribe\<close> if it is set, then clear it.\<close>

definition destroy :: "nat \<Rightarrow> 'v CacheState \<Rightarrow> 'v CacheState" where
  "destroy ld s =
     (case heap s ld of
        None \<Rightarrow> s
      | Some cell \<Rightarrow>
          (case ld_unsubscribe cell of
             None \<Rightarrow> s
           | Some c \<Rightarrow>
               s\<lparr> closures := (case closures s c of
                                   None \<Rightarrow> closures s
                                 | Some closure \<Rightarrow>
                                     (closures s)(c \<mapsto> closure\<lparr> callbacks := removeAll ld (callbacks closure) \<rparr>)),
                   heap := (heap s)(ld \<mapsto> cell\<lparr> ld_unsubscribe := None \<rparr>) \<rparr>))"

text \<open>
  The release effect of \<^verbatim>\<open>watchQueryToLiveData\<close>, in the order of the source: look the
  cache key up in the \<^verbatim>\<open>WeakMap\<close>; \<^verbatim>\<open>if (cacheKey)\<close> is false for a missing entry and
  for the empty string; decrement the watch's \<^verbatim>\<open>refCount\<close> and at zero unsubscribe
  upstream and delete the entry; delete the \<^verbatim>\<open>WeakMap\<close> entry; finally, outside the
  conditional, \<^verbatim>\<open>liveData.destroy()\<close>.
\<close>

definition release :: "nat \<Rightarrow> 'v CacheState \<Rightarrow> 'v CacheState" where
  "release ld s =
     (let s1 =
        (case liveDataCacheKeys s ld of
           None \<Rightarrow> s
         | Some key \<Rightarrow>
             if key = [] then s
             else
               (let s' =
                  (case activeWatches s key of
                     None \<Rightarrow> s
                   | Some watch \<Rightarrow>
                       (let watch' = watch\<lparr> refCount := refCount watch - 1 \<rparr>
                        in if refCount watch' = 0
                           then s\<lparr> subscriptions := (subscriptions s)(unsubscribe watch' := None),
                                   upstreamCalls := upstreamCalls s @ [UnsubscribeCall (unsubscribe watch')],
                                   activeWatches := (activeWatches s)(key := None) \<rparr>
                           else s\<lparr> activeWatches := (activeWatches s)(key \<mapsto> watch') \<rparr>))
                in s'\<lparr> liveDataCacheKeys := (liveDataCacheKeys s')(ld := None) \<rparr>))
      in destroy ld s1)"

text \<open>
  The callback a \<^verbatim>\<open>LiveData\<close> registers: read \<^verbatim>\<open>getCurrentValue()\<close> and store it unless
  it is \<^verbatim>\<open>undefined\<close>.
\<close>

definition runCallback :: "nat \<Rightarrow> nat \<Rightarrow> 'v CacheState \<Rightarrow> 'v CacheState" where
  "runCallback c ld s =
     (case (closures s c, heap s ld) of
        (Some closure, Some cell) \<Rightarrow>
          (let newData = currentValue closure
           in if newData \<noteq> Undefined
              then s\<lparr> heap := (heap s)(ld \<mapsto> cell\<lparr> ld_data := newData \<rparr>) \<rparr>
              else s)
      | _ \<Rightarrow> s)"

text \<open>
  The upstream watch of subscription \<open>sub\<close> fires with \<open>result\<close>: the callback given to
  \<^verbatim>\<open>client.onUpdate\<close> assigns \<^verbatim>\<open>currentValue\<close> and runs every registered callback. A
  subscription that was unsubscribed delivers nothing.
\<close>

definition upstreamUpdate :: "nat \<Rightarrow> 'v jsval \<Rightarrow> 'v CacheState \<Rightarrow> 'v CacheState" where
  "upstreamUpdate sub result s =
     (case subscriptions s sub of
        None \<Rightarrow> s
      | Some c \<Rightarrow>
          (case closures s c of
             None \<Rightarrow> s
           | Some closure \<Rightarrow>
               (let s1 = s\<lparr> closures := (closures s)(c \<mapsto> closure\<lparr> currentValue := result \<rparr>) \<rparr>
                in fold (runCallback c) (callbacks closure) s1)))"

text \<open>The \<^verbatim>\<open>data\<close> getter of the cell at a reference.\<close>

definition data :: "'v CacheState \<Rightarrow> nat \<Rightarrow> 'v jsval" where
  "data s ld = (case heap s ld of None \<Rightarrow> Undefined | Some cell \<Rightarrow> ld_data cell)"

section \<open>Concrete inputs\<close>

text \<open>Messages of two servers, interleaved, and one known author.\<close>

definition msg1 :: Message where
  "msg1 = \<lparr>message_id = ''1001'', authorId = ''alice'', serverId = ''srvA'', channelId = ''c1'',
            content = ''hello''\<rparr>"

definition msg2 :: Message where
  "msg2 = \<lparr>message_id = ''1002'', authorId = ''bob'', serverId = ''srvB'', channelId = ''c2'',
            content = ''question''\<rparr>"

definition msg3 :: Message where
  "msg3 = \<lparr>message_id = ''1003'', authorId = ''carol'', serverId = ''srvA'', channelId = ''c1'',
            content = ''answer''\<rparr>"

definition alice :: DiscordAccount where
  "alice = \<lparr>account_id = ''alice'', account_name = ''Alice'', account_avatar = Some ''a.png''\<rparr>"

definition no_prefs :: ServerVisibilityContext where
  "no_prefs = \<lparr>considerAllMessagesPublicEnabled = False, anonymizeMessagesEnabled = False\<rparr>"

definition empty_ctx :: QueryCtx where
  "empty_ctx = \<lparr>serverPreferences_by_serverId = (\<lambda>_. None),
                 findUserServerSettingsById = (\<lambda>_ _. None)\<rparr>"

text \<open>
  The acquisition the database tests make through \<^verbatim>\<open>getServerByDiscordId\<close>: the query
  \<^verbatim>\<open>servers:publicGetServerByDiscordId\<close> with the argument object whose \<^verbatim>\<open>discordId\<close>
  is \<^verbatim>\<open>123\<close>, against a backend that answers with the server's description, and the
  states after one, two and three acquisitions.
\<close>

definition q_server :: FunctionReference where
  "q_server = FunctionReference ''servers:publicGetServerByDiscordId''"

definition args_123 :: json where
  "args_123 = JObj [(''discordId'', JStr ''123'')]"

definition key_123 :: string where
  "key_123 = cacheKey (watchRequest q_server args_123)"

definition test_client :: "string \<Rightarrow> string ConvexClient" where
  "test_client description =
     \<lparr> client_query = (\<lambda>q a. Inr (Value description)), client_onUpdate = (\<lambda>q a. None) \<rparr>"

definition failing_client :: "string ConvexClient" where
  "failing_client =
     \<lparr> client_query = (\<lambda>q a. Inl (ConvexError ''Simulated ConvexError'')),
       client_onUpdate = (\<lambda>q a. Some (ConvexError ''Simulated ConvexError'')) \<rparr>"

definition acquire_server :: "string CacheState \<Rightarrow> string CacheState" where
  "acquire_server s = snd (acquire (test_client ''Test Description'') q_server args_123 s)"

definition acquired1 :: "string CacheState" where
  "acquired1 = acquire_server initialState"

definition acquired2 :: "string CacheState" where
  "acquired2 = acquire_server acquired1"

definition acquired3 :: "string CacheState" where
  "acquired3 = acquire_server acquired2"





definition args_take :: "jsnumber \<Rightarrow> json" where
  "args_take x = JObj [(''take'', JNum x)]"

section \<open>Auxiliary definitions for the proofs\<close>

text \<open>The first occurrences of a list, in order.\<close>

definition first_occ :: "'a list \<Rightarrow> 'a list" where
  "first_occ xs = rev (remdups (rev xs))"











definition no_digit_next :: "string \<Rightarrow> bool" where
  "no_digit_next r = (case r of [] \<Rightarrow> True | c # _ \<Rightarrow> \<not> is_digit c)"







section \<open>Visibility engine: the decision rules and the author projection\<close>

text \<open>
  C1. If the server considers all messages public, \<open>isMessagePublic\<close> is true for every
  user, the null user included; otherwise it is true exactly when the user is non-null
  and has \<open>canPubliclyDisplayMessages\<close> set.
\<close>

theorem isMessagePublic_rule:
  "(considerAllMessagesPublicEnabled srv \<longrightarrow> isMessagePublic srv usr) \<and>
   (\<not> considerAllMessagesPublicEnabled srv \<longrightarrow>
      (isMessagePublic srv usr \<longleftrightarrow> (\<exists>u. usr = Some u \<and> canPubliclyDisplayMessages u)))"
  by (cases usr) (simp_all add: isMessagePublic_def)

theorem isMessagePublic_rule_witness:
  "isMessagePublic \<lparr>considerAllMessagesPublicEnabled = True, anonymizeMessagesEnabled = False\<rparr> None \<and>
   \<not> isMessagePublic \<lparr>considerAllMessagesPublicEnabled = False, anonymizeMessagesEnabled = False\<rparr> None \<and>
   \<not> isMessagePublic \<lparr>considerAllMessagesPublicEnabled = False, anonymizeMessagesEnabled = False\<rparr>
        (Some \<lparr>canPubliclyDisplayMessages = False\<rparr>) \<and>
   isMessagePublic \<lparr>considerAllMessagesPublicEnabled = False, anonymizeMessagesEnabled = False\<rparr>
        (Some \<lparr>canPubliclyDisplayMessages = True\<rparr>)"
  using
    isMessagePublic_rule [of "\<lparr>considerAllMessagesPublicEnabled = True, anonymizeMessagesEnabled = False\<rparr>" None]
    isMessagePublic_rule [of "\<lparr>considerAllMessagesPublicEnabled = False, anonymizeMessagesEnabled = False\<rparr>" None]
    isMessagePublic_rule [of "\<lparr>considerAllMessagesPublicEnabled = False, anonymizeMessagesEnabled = False\<rparr>"
      "Some \<lparr>canPubliclyDisplayMessages = False\<rparr>"]
    isMessagePublic_rule [of "\<lparr>considerAllMessagesPublicEnabled = False, anonymizeMessagesEnabled = False\<rparr>"
      "Some \<lparr>canPubliclyDisplayMessages = True\<rparr>"]
  by simp

text \<open>
  C2. A non-public message always has its author anonymized, whatever the server's
  anonymize flag; a public message has its author anonymized exactly when the server's
  \<open>anonymizeMessagesEnabled\<close> flag is set.
\<close>

theorem shouldAnonymizeAuthor_rule:
  "(\<not> isPublic \<longrightarrow> shouldAnonymizeAuthor srv usr isPublic) \<and>
   (isPublic \<longrightarrow> shouldAnonymizeAuthor srv usr isPublic = anonymizeMessagesEnabled srv)"
  by (simp add: shouldAnonymizeAuthor_def)

theorem shouldAnonymizeAuthor_rule_witness:
  "shouldAnonymizeAuthor \<lparr>considerAllMessagesPublicEnabled = False, anonymizeMessagesEnabled = False\<rparr> None False \<and>
   \<not> shouldAnonymizeAuthor \<lparr>considerAllMessagesPublicEnabled = True, anonymizeMessagesEnabled = False\<rparr> None True \<and>
   shouldAnonymizeAuthor \<lparr>considerAllMessagesPublicEnabled = True, anonymizeMessagesEnabled = True\<rparr>
     (Some \<lparr>canPubliclyDisplayMessages = True\<rparr>) True"
  using
    shouldAnonymizeAuthor_rule [of False "\<lparr>considerAllMessagesPublicEnabled = False, anonymizeMessagesEnabled = False\<rparr>" None]
    shouldAnonymizeAuthor_rule [of True "\<lparr>considerAllMessagesPublicEnabled = True, anonymizeMessagesEnabled = False\<rparr>" None]
    shouldAnonymizeAuthor_rule [of True "\<lparr>considerAllMessagesPublicEnabled = True, anonymizeMessagesEnabled = True\<rparr>"
      "Some \<lparr>canPubliclyDisplayMessages = True\<rparr>"]
  by simp

text \<open>
  C3. For a non-null author, \<open>applyVisibilityToAuthor\<close> returns a non-null sanitized
  author whose avatar is null whenever its public field is false, and whose id is the
  input author's id.
\<close>

theorem applyVisibilityToAuthor_invariant:
  "\<exists>s. applyVisibilityToAuthor (Some a) visibility isPublic = Some s \<and>
       (\<not> author_public s \<longrightarrow> author_avatar s = None) \<and>
       author_id s = account_id a"
  by (simp add: applyVisibilityToAuthor_def shouldAnonymizeAuthor_def anonymizeAuthor_def Let_def)

theorem applyVisibilityToAuthor_invariant_witness:
  "applyVisibilityToAuthor
     (Some \<lparr>account_id = ''123456789'', account_name = ''Test User'',
            account_avatar = Some ''https://example.com/avatar.png''\<rparr>)
     \<lparr>server = no_prefs, user = None\<rparr> False =
   Some \<lparr>author_id = ''123456789'', author_name = ''Hidden User'', author_avatar = None,
         author_public = False\<rparr>"
  using applyVisibilityToAuthor_invariant
    [of "\<lparr>account_id = ''123456789'', account_name = ''Test User'',
           account_avatar = Some ''https://example.com/avatar.png''\<rparr>"
        "\<lparr>server = no_prefs, user = None\<rparr>" False]
  by (simp add: applyVisibilityToAuthor_def shouldAnonymizeAuthor_def anonymizeAuthor_def
        generateAnonymousName_def simpleHash_def toInt32_def adjectives_def no_prefs_def)

section \<open>Visibility engine: messages keep their order\<close>

lemma sanitizeMessage_cong:
  "am (authorId m) = am' (authorId m) \<Longrightarrow>
   (case avm (authorId m) of None \<Rightarrow> None | Some v \<Rightarrow> v) =
   (case avm' (authorId m) of None \<Rightarrow> None | Some v \<Rightarrow> v) \<Longrightarrow>
   sanitizeMessage sv am avm m = sanitizeMessage sv am' avm' m"
  by (simp add: sanitizeMessage_def)

lemma underlying_sanitizeMessage [simp]: "underlying (sanitizeMessage sv am avm m) = m"
  by (simp add: underlying_def sanitizeMessage_def Message.truncate_def Message.extend_def
        SanitizedMessage.fields_def Let_def)

text \<open>
  C9. \<open>applyVisibilityToMessages\<close> returns as many pairs as there are messages, and the
  pair at each index is made from the message at that index: it carries that message,
  the public flag computed from the server context and the author's visibility, and
  the author projected under that flag. A message whose author is missing from the
  author map gets a null author, and an author missing from the visibility map is
  judged like one whose visibility is recorded as null.
\<close>

theorem applyVisibilityToMessages_pointwise:
  "length (applyVisibilityToMessages ms sv am avm) = length ms \<and>
   (\<forall>i<length ms.
      (let m = ms ! i;
           r = applyVisibilityToMessages ms sv am avm ! i;
           uv = (case avm (authorId m) of None \<Rightarrow> None | Some v \<Rightarrow> v)
       in underlying r = m \<and>
          message_public (message r) = isMessagePublic sv uv \<and>
          author r = applyVisibilityToAuthor (am (authorId m)) \<lparr>server = sv, user = uv\<rparr>
                       (isMessagePublic sv uv) \<and>
          (am (authorId m) = None \<longrightarrow> author r = None) \<and>
          (avm (authorId m) = None \<longrightarrow>
             message_public (message r) = isMessagePublic sv None))) \<and>
   (\<forall>k. avm k = None \<longrightarrow>
      applyVisibilityToMessages ms sv am avm = applyVisibilityToMessages ms sv am (avm(k \<mapsto> None)))"
proof (intro conjI allI impI)
  show "length (applyVisibilityToMessages ms sv am avm) = length ms"
    by (simp add: applyVisibilityToMessages_def)
next
  fix i assume "i < length ms"
  then have nth: "applyVisibilityToMessages ms sv am avm ! i = sanitizeMessage sv am avm (ms ! i)"
    by (simp add: applyVisibilityToMessages_def)
  show "let m = ms ! i;
            r = applyVisibilityToMessages ms sv am avm ! i;
            uv = (case avm (authorId m) of None \<Rightarrow> None | Some v \<Rightarrow> v)
        in underlying r = m \<and>
           message_public (message r) = isMessagePublic sv uv \<and>
           author r = applyVisibilityToAuthor (am (authorId m)) \<lparr>server = sv, user = uv\<rparr>
                        (isMessagePublic sv uv) \<and>
           (am (authorId m) = None \<longrightarrow> author r = None) \<and>
           (avm (authorId m) = None \<longrightarrow>
              message_public (message r) = isMessagePublic sv None)"
    unfolding nth Let_def
  proof (intro conjI impI)
    let ?uv = "case avm (authorId (ms ! i)) of None \<Rightarrow> None | Some v \<Rightarrow> v"
    show "underlying (sanitizeMessage sv am avm (ms ! i)) = ms ! i"
      by simp
    show pub: "message_public (message (sanitizeMessage sv am avm (ms ! i))) = isMessagePublic sv ?uv"
      by (simp add: sanitizeMessage_def Message.extend_def SanitizedMessage.fields_def Let_def)
    show "author (sanitizeMessage sv am avm (ms ! i)) =
          applyVisibilityToAuthor (am (authorId (ms ! i))) \<lparr>server = sv, user = ?uv\<rparr>
            (isMessagePublic sv ?uv)"
      by (simp add: sanitizeMessage_def Let_def)
    show "author (sanitizeMessage sv am avm (ms ! i)) = None" if "am (authorId (ms ! i)) = None"
      using that by (simp add: sanitizeMessage_def applyVisibilityToAuthor_def Let_def)
    show "message_public (message (sanitizeMessage sv am avm (ms ! i))) = isMessagePublic sv None"
      if "avm (authorId (ms ! i)) = None"
      using that pub by simp
  qed
next
  fix k assume "avm k = None"
  then have "sanitizeMessage sv am avm m = sanitizeMessage sv am (avm(k \<mapsto> None)) m" for m
    by (intro sanitizeMessage_cong) simp_all
  then show "applyVisibilityToMessages ms sv am avm = applyVisibilityToMessages ms sv am (avm(k \<mapsto> None))"
    by (simp add: applyVisibilityToMessages_def)
qed

theorem applyVisibilityToMessages_pointwise_witness:
  "applyVisibilityToMessages [msg1, msg2] no_prefs
       [''alice'' \<mapsto> alice] [''alice'' \<mapsto> Some \<lparr>canPubliclyDisplayMessages = True\<rparr>] =
     [\<lparr>message = Message.extend msg1 (SanitizedMessage.fields True),
       author = Some \<lparr>author_id = ''alice'', author_name = ''Alice'', author_avatar = Some ''a.png'',
                      author_public = True\<rparr>\<rparr>,
      \<lparr>message = Message.extend msg2 (SanitizedMessage.fields False), author = None\<rparr>] \<and>
   length (applyVisibilityToMessages [msg1, msg2] no_prefs
       [''alice'' \<mapsto> alice] [''alice'' \<mapsto> Some \<lparr>canPubliclyDisplayMessages = True\<rparr>]) = 2"
  using applyVisibilityToMessages_pointwise
    [of "[msg1, msg2]" no_prefs "[''alice'' \<mapsto> alice]"
        "[''alice'' \<mapsto> Some \<lparr>canPubliclyDisplayMessages = True\<rparr>]"]
  by (simp add: applyVisibilityToMessages_def sanitizeMessage_def applyVisibilityToAuthor_def
        shouldAnonymizeAuthor_def isMessagePublic_def msg1_def msg2_def alice_def no_prefs_def)

section \<open>Visibility engine: grouping by server\<close>

lemma first_occ_snoc:
  "first_occ (xs @ [x]) = (if x \<in> set xs then first_occ xs else first_occ xs @ [x])"
  by (simp add: first_occ_def)

lemma set_first_occ [simp]: "set (first_occ xs) = set xs"
  by (simp add: first_occ_def)

lemma distinct_first_occ [simp]: "distinct (first_occ xs)"
  by (simp add: first_occ_def)

lemma array_from_set_eq: "array_from_set xs = rev (remdups (rev xs))"
proof -
  have "fold (\<lambda>x acc. if x \<in> set acc then acc else acc @ [x]) xs [] = first_occ xs"
    by (induction xs rule: rev_induct) (simp_all add: first_occ_snoc first_occ_def[of "[]"])
  then show ?thesis by (simp add: array_from_set_def first_occ_def)
qed

lemma map_set_present:
  "distinct ks \<Longrightarrow> k \<in> set ks \<Longrightarrow>
   map_set (map (\<lambda>s. (s, f s)) ks) k v = map (\<lambda>s. (s, if s = k then v else f s)) ks"
  by (induction ks) auto

lemma map_set_absent:
  "k \<notin> set ks \<Longrightarrow> map_set (map (\<lambda>s. (s, f s)) ks) k v = map (\<lambda>s. (s, f s)) ks @ [(k, v)]"
  by (induction ks) auto

lemma map_set_last:
  "k \<notin> fst ` set es \<Longrightarrow> map_set (es @ [(k, v0)]) k v = es @ [(k, v)]"
  by (induction es) auto

lemma map_of_tabulate:
  "map_of (map (\<lambda>s. (s, f s)) ks) k = (if k \<in> set ks then Some (f k) else None)"
  by (induction ks) auto

text \<open>
  The grouping loop builds one entry per server, in the order in which the servers
  first occur, holding that server's messages in input order.
\<close>

lemma fold_group_step:
  "fold group_step ms [] =
     map (\<lambda>s. (s, filter (\<lambda>m. serverId m = s) ms)) (first_occ (map serverId ms))"
proof (induction ms rule: rev_induct)
  case Nil
  show ?case by (simp add: first_occ_def)
next
  case (snoc m ms)
  let ?ks = "first_occ (map serverId ms)"
  let ?f = "\<lambda>s. filter (\<lambda>x. serverId x = s) ms"
  let ?g = "\<lambda>s. filter (\<lambda>x. serverId x = s) (ms @ [m])"
  have unfold: "fold group_step (ms @ [m]) [] = group_step m (map (\<lambda>s. (s, ?f s)) ?ks)"
    using snoc.IH by simp
  show ?case
  proof (cases "serverId m \<in> set (map serverId ms)")
    case True
    then have in_ks: "serverId m \<in> set ?ks" by simp
    have step: "group_step m (map (\<lambda>s. (s, ?f s)) ?ks) =
          map (\<lambda>s. (s, if s = serverId m then ?f (serverId m) @ [m] else ?f s)) ?ks"
      using in_ks
      by (simp add: group_step_def map_has_def map_of_tabulate map_set_present Let_def)
    have same: "map (\<lambda>s. (s, if s = serverId m then ?f (serverId m) @ [m] else ?f s)) ?ks =
          map (\<lambda>s. (s, ?g s)) ?ks"
      by (rule map_cong) auto
    have keys: "first_occ (map serverId (ms @ [m])) = ?ks"
      using True by (simp add: first_occ_snoc)
    have "fold group_step (ms @ [m]) [] =
          map (\<lambda>s. (s, if s = serverId m then ?f (serverId m) @ [m] else ?f s)) ?ks"
      using unfold step by (rule trans)
    also have "\<dots> = map (\<lambda>s. (s, ?g s)) ?ks"
      by (rule same)
    finally show ?thesis by (simp only: keys)
  next
    case False
    then have notin: "serverId m \<notin> set ?ks" by simp
    have none: "\<forall>x\<in>set ms. serverId x \<noteq> serverId m"
      using False by (metis image_eqI set_map)
    then have nofilter: "?g (serverId m) = [m]"
      by (simp add: filter_empty_conv)
    have fresh: "serverId m \<notin> fst ` set (map (\<lambda>s. (s, ?f s)) ?ks)"
      using notin by (simp add: image_image)
    have step: "group_step m (map (\<lambda>s. (s, ?f s)) ?ks) =
          map (\<lambda>s. (s, ?f s)) ?ks @ [(serverId m, [m])]"
      using notin fresh
      by (simp add: group_step_def map_has_def map_of_tabulate map_set_absent map_set_last Let_def
           map_add_def)
    have same: "map (\<lambda>s. (s, ?f s)) ?ks = map (\<lambda>s. (s, ?g s)) ?ks"
      using notin by (intro map_cong) auto
    have keys: "first_occ (map serverId (ms @ [m])) = ?ks @ [serverId m]"
      using False by (simp add: first_occ_snoc)
    have "fold group_step (ms @ [m]) [] = map (\<lambda>s. (s, ?f s)) ?ks @ [(serverId m, [m])]"
      using unfold step by (rule trans)
    also have "\<dots> = map (\<lambda>s. (s, ?g s)) ?ks @ [(serverId m, ?g (serverId m))]"
      by (simp only: same nofilter)
    also have "\<dots> = map (\<lambda>s. (s, ?g s)) (?ks @ [serverId m])"
      by simp
    finally show ?thesis by (simp only: keys)
  qed
qed


lemma fold_upd_lookup:
  "fold (\<lambda>k m. m(k \<mapsto> f k)) ks m0 k = (if k \<in> set ks then Some (f k) else m0 k)"
  by (induction ks arbitrary: m0) auto

lemma getAuthorVisibilityContexts_lookup:
  "getAuthorVisibilityContexts ctx sid aids a =
     (if a \<in> set aids
      then Some (computeUserVisibility
                   (case findUserServerSettingsById ctx a sid of None \<Rightarrow> None
                    | Some s \<Rightarrow> Some (settings_canPubliclyDisplayMessages s)))
      else None)"
  by (simp add: getAuthorVisibilityContexts_def Let_def fold_upd_lookup array_from_set_eq)

lemma fold_entries_lookup:
  "fold (\<lambda>(k, v) m. m(k \<mapsto> v))
        (List.map_filter (\<lambda>i. case am i of None \<Rightarrow> None | Some a \<Rightarrow> Some (i, a)) ids) m0 k =
     (if k \<in> set ids then (case am k of None \<Rightarrow> m0 k | Some a \<Rightarrow> Some a) else m0 k)"
  by (induction ids arbitrary: m0) (auto simp: List.map_filter_simps split: option.splits)

lemma serverAuthorMap_lookup:
  "map_from_entries
     (List.map_filter (\<lambda>i. case am i of None \<Rightarrow> None | Some a \<Rightarrow> Some (i, a)) ids) k =
     (if k \<in> set ids then am k else None)"
  by (simp add: map_from_entries_def fold_entries_lookup split: option.splits)

lemma sanitizeServerGroup_eq:
  "sanitizeServerGroup ctx am (sid, sms) =
     map (\<lambda>m. sanitizeMessage (getServerVisibilityContext ctx sid) am
                (getAuthorVisibilityContexts ctx sid [authorId m]) m) sms"
  unfolding sanitizeServerGroup_def applyVisibilityToMessages_def Let_def prod.case
  by (rule map_cong[OF refl], rule sanitizeMessage_cong)
     (simp_all add: serverAuthorMap_lookup getAuthorVisibilityContexts_lookup array_from_set_eq)

lemma getSanitizedMessages_eq:
  "getSanitizedMessages ctx ms am =
     concat (map (\<lambda>s. map (\<lambda>m. sanitizeMessage (getServerVisibilityContext ctx s) am
                                  (getAuthorVisibilityContexts ctx s [authorId m]) m)
                          (filter (\<lambda>m. serverId m = s) ms))
                 (first_occ (map serverId ms)))"
proof (cases "ms = []")
  case True
  then show ?thesis by (simp add: getSanitizedMessages_def first_occ_def)
next
  case False
  then have "getSanitizedMessages ctx ms am =
      concat (map (sanitizeServerGroup ctx am) (fold group_step ms []))"
    by (simp add: getSanitizedMessages_def Let_def)
  then show ?thesis
    by (simp add: fold_group_step sanitizeServerGroup_eq comp_def)
qed

lemma underlying_getSanitizedMessages:
  "map underlying (getSanitizedMessages ctx ms am) =
     concat (map (\<lambda>s. filter (\<lambda>m. serverId m = s) ms) (first_occ (map serverId ms)))"
  by (simp add: getSanitizedMessages_eq map_concat comp_def)

lemma mset_groups:
  "distinct ks \<Longrightarrow>
   mset (concat (map (\<lambda>s. filter (\<lambda>m. f m = s) ms) ks)) = filter_mset (\<lambda>m. f m \<in> set ks) (mset ms)"
proof (induction ks)
  case Nil
  show ?case by simp
next
  case (Cons k ks)
  have "filter_mset (\<lambda>m. f m = k) (mset ms) + filter_mset (\<lambda>m. f m \<in> set ks) (mset ms) =
        filter_mset (\<lambda>m. f m \<in> set (k # ks)) (mset ms)"
    using Cons.prems by (induction ms) auto
  then show ?case using Cons by simp
qed

lemma remdups_replicate_Suc: "remdups (replicate (Suc n) s) = [s]"
  by (induction n) auto

lemma first_occ_replicate: "0 < n \<Longrightarrow> first_occ (replicate n s) = [s]"
  using remdups_replicate_Suc [of "n - 1" s]
  by (cases n) (simp_all add: first_occ_def del: replicate_Suc remdups.simps)

lemma groups_single:
  "(\<forall>m\<in>set ms. f m = s) \<Longrightarrow> ms \<noteq> [] \<Longrightarrow>
   concat (map (\<lambda>s. filter (\<lambda>m. f m = s) ms) (first_occ (map f ms))) = ms"
proof -
  assume all: "\<forall>m\<in>set ms. f m = s" and ne: "ms \<noteq> []"
  then have "map f ms = replicate (length ms) s"
    by (simp add: map_replicate_const[symmetric] cong: map_cong)
  moreover have "first_occ (replicate (length ms) s) = [s]"
    using ne by (simp add: first_occ_replicate)
  ultimately show ?thesis using all by (simp cong: filter_cong)
qed


text \<open>
  C10. \<open>getSanitizedMessages\<close> returns the input messages grouped by server: the groups
  follow the order in which each server first occurs in the input, and inside a group
  the messages keep their input order. The output is a rearrangement of the input,
  one pair per message, and each pair is the message sanitized under the context of
  its own server. An input of a single server comes back in input order; an
  interleaved input of several servers need not.
\<close>

theorem getSanitizedMessages_grouped:
  "map underlying (getSanitizedMessages ctx ms am) =
     concat (map (\<lambda>s. filter (\<lambda>m. serverId m = s) ms) (rev (remdups (rev (map serverId ms))))) \<and>
   mset (map underlying (getSanitizedMessages ctx ms am)) = mset ms \<and>
   length (getSanitizedMessages ctx ms am) = length ms \<and>
   (\<forall>r\<in>set (getSanitizedMessages ctx ms am).
      r = sanitizeMessage (getServerVisibilityContext ctx (serverId (underlying r))) am
            (getAuthorVisibilityContexts ctx (serverId (underlying r)) [authorId (underlying r)])
            (underlying r)) \<and>
   ((\<forall>m\<in>set ms. serverId m = s) \<longrightarrow> map underlying (getSanitizedMessages ctx ms am) = ms) \<and>
   (\<exists>ctx' ms' am'. map underlying (getSanitizedMessages ctx' ms' am') \<noteq> ms')"
proof (intro conjI)
  show grouped: "map underlying (getSanitizedMessages ctx ms am) =
     concat (map (\<lambda>s. filter (\<lambda>m. serverId m = s) ms) (rev (remdups (rev (map serverId ms)))))"
    using underlying_getSanitizedMessages by (simp add: first_occ_def)
  show perm: "mset (map underlying (getSanitizedMessages ctx ms am)) = mset ms"
  proof -
    have "mset (map underlying (getSanitizedMessages ctx ms am)) =
          filter_mset (\<lambda>m. serverId m \<in> set (first_occ (map serverId ms))) (mset ms)"
      by (simp only: underlying_getSanitizedMessages mset_groups [OF distinct_first_occ])
    also have "\<dots> = mset ms"
      by (simp add: filter_mset_eq_conv)
    finally show ?thesis .
  qed
  show "length (getSanitizedMessages ctx ms am) = length ms"
    using perm by (metis length_map size_mset)
  show "\<forall>r\<in>set (getSanitizedMessages ctx ms am).
      r = sanitizeMessage (getServerVisibilityContext ctx (serverId (underlying r))) am
            (getAuthorVisibilityContexts ctx (serverId (underlying r)) [authorId (underlying r)])
            (underlying r)"
    by (auto simp: getSanitizedMessages_eq)
  show "(\<forall>m\<in>set ms. serverId m = s) \<longrightarrow> map underlying (getSanitizedMessages ctx ms am) = ms"
  proof
    assume all: "\<forall>m\<in>set ms. serverId m = s"
    show "map underlying (getSanitizedMessages ctx ms am) = ms"
    proof (cases "ms = []")
      case True
      then show ?thesis by (simp add: getSanitizedMessages_def)
    next
      case False
      show ?thesis
        using groups_single [OF all False] by (simp only: underlying_getSanitizedMessages)
    qed
  qed
  show "\<exists>ctx' ms' am'. map underlying (getSanitizedMessages ctx' ms' am') \<noteq> ms'"
  proof (intro exI)
    show "map underlying (getSanitizedMessages empty_ctx [msg1, msg2, msg3] Map.empty) \<noteq>
          [msg1, msg2, msg3]"
      by (simp add: underlying_getSanitizedMessages first_occ_def msg1_def msg2_def msg3_def)
  qed
qed

theorem getSanitizedMessages_grouped_witness:
  "map underlying (getSanitizedMessages empty_ctx [msg1, msg2, msg3] Map.empty) = [msg1, msg3, msg2] \<and>
   length (getSanitizedMessages empty_ctx [msg1, msg2, msg3] Map.empty) = 3 \<and>
   map underlying (getSanitizedMessages empty_ctx [msg1, msg3] [''alice'' \<mapsto> alice]) = [msg1, msg3]"
  using getSanitizedMessages_grouped [of empty_ctx "[msg1, msg2, msg3]" Map.empty "''srvA''"]
    getSanitizedMessages_grouped [of empty_ctx "[msg1, msg3]" "[''alice'' \<mapsto> alice]" "''srvA''"]
  by (simp add: msg1_def msg2_def msg3_def)

section \<open>Live query cache: the serialisation can be read back\<close>

subsection \<open>Strings\<close>







subsection \<open>Numbers\<close>









lemma is_digit_zero [simp]: "is_digit CHR ''0''"
  by (simp add: is_digit_def)

lemma not_digit_chars [simp]:
  "\<not> is_digit CHR ''.''" "\<not> is_digit CHR ''e''" "\<not> is_digit CHR ''-''" "\<not> is_digit CHR ''+''"
  "\<not> is_digit CHR '',''" "\<not> is_digit CHR '']''" "\<not> is_digit CHR ''}''"
  by (simp_all add: is_digit_def)













lemma no_digit_next_simps [simp]:
  "no_digit_next (CHR ''.'' # u)" "no_digit_next (ExponentPart e @ r)"
  by (simp_all add: no_digit_next_def ExponentPart_def)









text \<open>
  Some numerals: \<open>10\<close>, \<open>1.5\<close>, \<open>-12.345\<close>, \<open>1e-7\<close>, \<open>1e+21\<close>, \<open>1.23e+24\<close>, and \<open>2 ^ 64\<close>,
  whose seventeen shortest digits are followed by three zeros.
\<close>

lemma digit_chars:
  "char_of (48::nat) = CHR ''0''" "char_of (49::nat) = CHR ''1''" "char_of (50::nat) = CHR ''2''"
  "char_of (51::nat) = CHR ''3''" "char_of (52::nat) = CHR ''4''" "char_of (53::nat) = CHR ''5''"
  "char_of (54::nat) = CHR ''6''" "char_of (55::nat) = CHR ''7''" "char_of (56::nat) = CHR ''8''"
  "char_of (57::nat) = CHR ''9''"
  by code_simp+

lemma NumberToString_examples:
  "NumberToString 1 2 = ''10''"
  "NumberToString 15 1 = ''1.5''"
  "NumberToString (- 12345) 2 = ''-12.345''"
  "NumberToString 1 (- 6) = ''1e-7''"
  "NumberToString 1 22 = ''1e+21''"
  "NumberToString 123 25 = ''1.23e+24''"
  "NumberToString 18446744073709552 20 = ''18446744073709552000''"
proof -
  have zeros: "replicate 3 CHR ''0'' = ''000''" by (simp add: numeral_3_eq_3)
  show "NumberToString 18446744073709552 20 = ''18446744073709552000''"
    by (simp add: NumberToString_def PositiveToString_def Let_def digits.simps digit_chars zeros)
qed (simp_all add: NumberToString_def PositiveToString_def ExponentPart_def Let_def
       digits.simps digit_chars)

subsection \<open>Values\<close>















section \<open>Live query cache: which requests share a key\<close>





lemma cacheKey_shape:
  "cacheKey (watchRequest q a) =
     CHR ''{'' # QuoteJSONString ''functionName'' @ CHR '':'' # QuoteJSONString (getFunctionName q) @
       (case SerializeJSONProperty a of
          None \<Rightarrow> [CHR ''}'']
        | Some t \<Rightarrow> CHR '','' # QuoteJSONString ''args'' @ CHR '':'' # t @ [CHR ''}''])"
  by (cases "SerializeJSONProperty a") (simp_all add: watchRequest_def Let_def SerializeJSONObject_def)




text \<open>
  An object with the keys \<open>2\<close> and \<open>1\<close> enumerates \<open>1\<close> first, however it was
  written, and array indices come before the other keys; \<open>01\<close> is no array index.
  A property whose value is undefined is left out, and undefined, NaN and negative
  zero in an array are written as null, null and 0.
\<close>

lemma enumeration_order_examples:
  "wf_json (JObj [(''1'', JNull), (''2'', JNull), (''b'', JNull), (''a'', JNull)])"
  "\<not> wf_json (JObj [(''2'', JNull), (''1'', JNull)])"
  "\<not> wf_json (JObj [(''a'', JNull), (''1'', JNull)])"
  "wf_json (JObj [(''b'', JNull), (''01'', JNull)])"
  by (simp_all add: enumeration_ordered_def is_array_index_def is_digit_def undigits_def)

lemma SerializeJSONObject_examples:
  "SerializeJSONObject [(''a'', JUndefined), (''b'', JArr [JUndefined, JNum NaN, JNum NegZero]), (''c'', JBytes [1, 2])] =
     CHR ''{'' # QuoteJSONString ''b'' @ '':[null,null,0],'' @ QuoteJSONString ''c'' @ '':{}}''"
  by (simp add: SerializeJSONObject_def)




text \<open>
  Each kind of value that is written with loss makes two requests with structurally
  different arguments share a key: negative zero and zero, an infinity and null,
  undefined and null in an array, a property that is undefined and one that is
  absent, a byte buffer and an empty object.
\<close>

lemma lossy_values_collide:
  "\<not> struct_eq (args_take NegZero) (args_take (Finite 0 0)) \<and>
   cacheKey (watchRequest q (args_take NegZero)) = cacheKey (watchRequest q (args_take (Finite 0 0)))"
  "\<not> struct_eq (args_take NegInfinity) (JObj [(''take'', JNull)]) \<and>
   cacheKey (watchRequest q (args_take NegInfinity)) = cacheKey (watchRequest q (JObj [(''take'', JNull)]))"
  "\<not> struct_eq (JObj [(''ids'', JArr [JUndefined])]) (JObj [(''ids'', JArr [JNull])]) \<and>
   cacheKey (watchRequest q (JObj [(''ids'', JArr [JUndefined])])) =
     cacheKey (watchRequest q (JObj [(''ids'', JArr [JNull])]))"
  "\<not> struct_eq (JObj [(''id'', JUndefined)]) (JObj []) \<and>
   cacheKey (watchRequest q (JObj [(''id'', JUndefined)])) = cacheKey (watchRequest q (JObj []))"
  "\<not> struct_eq (JObj [(''id'', JBytes [1])]) (JObj [(''id'', JObj [])]) \<and>
   cacheKey (watchRequest q (JObj [(''id'', JBytes [1])])) =
     cacheKey (watchRequest q (JObj [(''id'', JObj [])]))"
  by (simp_all add: cacheKey_shape args_take_def NumberToString_def)




section \<open>Live query cache: acquisition and release\<close>

lemma watchResolver_single:
  "watchResolver client [request] s =
     ([fst (watchResolver_step client request s)], snd (watchResolver_step client request s))"
  by (simp split: prod.splits)

text \<open>Two equal requests in one batch share the watch the first of them created.\<close>

lemma watchResolver_batch_dedup:
  assumes "activeWatches s (cacheKey request) = None"
    and "client_query client (query request) (args request) = Inr v"
    and "client_onUpdate client (query request) (args request) = None"
  shows "fst (watchResolver client [request, request] s) = [Inr (nextRef s), Inr (nextRef s)] \<and>
         map_option refCount (activeWatches (snd (watchResolver client [request, request] s))
           (cacheKey request)) = Some 2 \<and>
         upstreamCalls (snd (watchResolver client [request, request] s)) =
           upstreamCalls s @ [QueryCall (query request) (args request),
                              OnUpdateCall (query request) (args request)]"
  using assms
  by (simp add: watchResolver_step_def createWatch_def Let_def split: prod.splits)

lemma cacheKey_nonempty: "cacheKey (watchRequest q a) \<noteq> []"
  by (simp add: watchRequest_def Let_def SerializeJSONObject_def)

lemma key_123_nonempty: "key_123 \<noteq> []"
  by (simp add: key_123_def cacheKey_nonempty)

lemma acquire_existing:
  assumes "activeWatches s (cacheKey (watchRequest q a)) = Some w"
  shows "acquire cl q a s =
     (Inr (liveData w),
      s\<lparr> activeWatches := (activeWatches s)(cacheKey (watchRequest q a) \<mapsto>
               w\<lparr> refCount := refCount w + 1 \<rparr>),
          liveDataCacheKeys := (liveDataCacheKeys s)(liveData w \<mapsto> cacheKey (watchRequest q a)) \<rparr>)"
  using assms by (simp add: acquire_def watchResolver_step_def Let_def)

lemma acquire_fresh:
  assumes "activeWatches s (cacheKey (watchRequest q a)) = None"
    and "client_query cl q a = Inr v" and "client_onUpdate cl q a = None"
  shows "acquire cl q a s =
     (Inr (nextRef s),
      s\<lparr> upstreamCalls := upstreamCalls s @ [QueryCall q a, OnUpdateCall q a],
          activeWatches := (activeWatches s)(cacheKey (watchRequest q a) \<mapsto>
               \<lparr> liveData = nextRef s, unsubscribe = nextRef s, refCount = 1 \<rparr>),
          heap := (heap s)(nextRef s \<mapsto> \<lparr> ld_data = v, ld_unsubscribe = Some (nextRef s) \<rparr>),
          closures := (closures s)(nextRef s \<mapsto> \<lparr> currentValue = v, callbacks = [nextRef s] \<rparr>),
          subscriptions := (subscriptions s)(nextRef s \<mapsto> nextRef s),
          nextRef := nextRef s + 1,
          liveDataCacheKeys := (liveDataCacheKeys s)(nextRef s \<mapsto> cacheKey (watchRequest q a)) \<rparr>)"
  using assms
  by (cases v)
     (simp_all add: acquire_def watchResolver_step_def createWatch_def Let_def watchRequest_def
        nullish_coalesce_def set_add_def)

lemma acquired1_eq:
  "acquired1 =
     \<lparr> activeWatches = [key_123 \<mapsto> \<lparr> liveData = 0, unsubscribe = 0, refCount = 1 \<rparr>],
       liveDataCacheKeys = [0 \<mapsto> key_123],
       heap = [0 \<mapsto> \<lparr> ld_data = Value ''Test Description'', ld_unsubscribe = Some 0 \<rparr>],
       closures = [0 \<mapsto> \<lparr> currentValue = Value ''Test Description'', callbacks = [0] \<rparr>],
       subscriptions = [0 \<mapsto> 0],
       upstreamCalls = [QueryCall q_server args_123, OnUpdateCall q_server args_123],
       nextRef = 1 \<rparr>"
  unfolding acquired1_def acquire_server_def
  by (subst acquire_fresh [where v = "Value ''Test Description''"])
     (simp_all add: initialState_def test_client_def key_123_def)

lemma acquired2_eq:
  "acquired2 = acquired1\<lparr> activeWatches := [key_123 \<mapsto> \<lparr> liveData = 0, unsubscribe = 0, refCount = 2 \<rparr>] \<rparr>"
  unfolding acquired2_def acquire_server_def
  by (subst acquire_existing [where w = "\<lparr> liveData = 0, unsubscribe = 0, refCount = 1 \<rparr>"])
     (simp_all add: acquired1_eq key_123_def)

lemma acquired3_eq:
  "acquired3 = acquired1\<lparr> activeWatches := [key_123 \<mapsto> \<lparr> liveData = 0, unsubscribe = 0, refCount = 3 \<rparr>] \<rparr>"
  unfolding acquired3_def acquire_server_def
  by (subst acquire_existing [where w = "\<lparr> liveData = 0, unsubscribe = 0, refCount = 2 \<rparr>"])
     (simp_all add: acquired2_eq acquired1_eq key_123_def)

lemma release1_of3:
  "release 0 acquired3 =
     \<lparr> activeWatches = [key_123 \<mapsto> \<lparr> liveData = 0, unsubscribe = 0, refCount = 2 \<rparr>],
       liveDataCacheKeys = Map.empty,
       heap = [0 \<mapsto> \<lparr> ld_data = Value ''Test Description'', ld_unsubscribe = None \<rparr>],
       closures = [0 \<mapsto> \<lparr> currentValue = Value ''Test Description'', callbacks = [] \<rparr>],
       subscriptions = [0 \<mapsto> 0],
       upstreamCalls = [QueryCall q_server args_123, OnUpdateCall q_server args_123],
       nextRef = 1 \<rparr>"
  by (simp add: acquired3_eq acquired1_eq release_def destroy_def key_123_nonempty Let_def)

lemma release_noop:
  "liveDataCacheKeys s ld = None \<Longrightarrow> heap s ld = Some cell \<Longrightarrow> ld_unsubscribe cell = None
   \<Longrightarrow> release ld s = s"
  by (simp add: release_def destroy_def)

lemma release_all_of3: "release 0 (release 0 (release 0 acquired3)) = release 0 acquired3"
proof -
  have noop: "release 0 (release 0 acquired3) = release 0 acquired3"
    by (rule release_noop
          [where cell = "\<lparr> ld_data = Value ''Test Description'', ld_unsubscribe = None \<rparr>"])
       (simp_all add: release1_of3)
  show ?thesis by (simp only: noop)
qed

lemma release1_of2:
  "release 0 acquired2 =
     \<lparr> activeWatches = [key_123 \<mapsto> \<lparr> liveData = 0, unsubscribe = 0, refCount = 1 \<rparr>],
       liveDataCacheKeys = Map.empty,
       heap = [0 \<mapsto> \<lparr> ld_data = Value ''Test Description'', ld_unsubscribe = None \<rparr>],
       closures = [0 \<mapsto> \<lparr> currentValue = Value ''Test Description'', callbacks = [] \<rparr>],
       subscriptions = [0 \<mapsto> 0],
       upstreamCalls = [QueryCall q_server args_123, OnUpdateCall q_server args_123],
       nextRef = 1 \<rparr>"
  by (simp add: acquired2_eq acquired1_eq release_def destroy_def key_123_nonempty Let_def)

text \<open>
  C4. The request is acquired three times; each acquisition returns the same
  \<^verbatim>\<open>LiveData\<close> (reference 0) and the count rises to 3. The first release lowers it
  to 2 and deletes the \<^verbatim>\<open>WeakMap\<close> entry of the shared \<^verbatim>\<open>LiveData\<close>, so the second
  release finds no cache key and leaves the count at 2 while a single acquisition is
  outstanding.
\<close>

theorem refCount_exceeds_outstanding:
  "fst (acquire (test_client ''Test Description'') q_server args_123 initialState) = Inr 0 \<and>
   fst (acquire (test_client ''Test Description'') q_server args_123 acquired1) = Inr 0 \<and>
   fst (acquire (test_client ''Test Description'') q_server args_123 acquired2) = Inr 0 \<and>
   map_option refCount (activeWatches acquired3 key_123) = Some 3 \<and>
   map_option refCount (activeWatches (release 0 acquired3) key_123) = Some 2 \<and>
   map_option refCount (activeWatches (release 0 (release 0 acquired3)) key_123) = Some 2"
proof (intro conjI)
  show "fst (acquire (test_client ''Test Description'') q_server args_123 initialState) = Inr 0"
    by (subst acquire_fresh [where v = "Value ''Test Description''"])
       (simp_all add: initialState_def test_client_def)
  show "fst (acquire (test_client ''Test Description'') q_server args_123 acquired1) = Inr 0"
    by (subst acquire_existing [where w = "\<lparr> liveData = 0, unsubscribe = 0, refCount = 1 \<rparr>"])
       (simp_all add: acquired1_eq key_123_def)
  show "fst (acquire (test_client ''Test Description'') q_server args_123 acquired2) = Inr 0"
    by (subst acquire_existing [where w = "\<lparr> liveData = 0, unsubscribe = 0, refCount = 2 \<rparr>"])
       (simp_all add: acquired2_eq acquired1_eq key_123_def)
  show "map_option refCount (activeWatches acquired3 key_123) = Some 3"
    by (simp add: acquired3_eq)
  show one: "map_option refCount (activeWatches (release 0 acquired3) key_123) = Some 2"
    by (simp add: release1_of3)
  have "release 0 (release 0 acquired3) = release 0 acquired3"
    by (rule release_noop
          [where cell = "\<lparr> ld_data = Value ''Test Description'', ld_unsubscribe = None \<rparr>"])
       (simp_all add: release1_of3)
  then show "map_option refCount (activeWatches (release 0 (release 0 acquired3)) key_123) = Some 2"
    using one by simp
qed


text \<open>
  C5. After three acquisitions and three releases the entry is still registered with
  count 2, the upstream subscription is still live and no unsubscribe call was made;
  the next acquisition returns the old \<^verbatim>\<open>LiveData\<close> (reference 0) and makes no call
  upstream.
\<close>

theorem watch_survives_full_release:
  "map_option refCount (activeWatches (release 0 (release 0 (release 0 acquired3))) key_123) = Some 2 \<and>
   subscriptions (release 0 (release 0 (release 0 acquired3))) 0 = Some 0 \<and>
   upstreamCalls (release 0 (release 0 (release 0 acquired3))) =
     [QueryCall q_server args_123, OnUpdateCall q_server args_123] \<and>
   fst (acquire (test_client ''Test Description'') q_server args_123
          (release 0 (release 0 (release 0 acquired3)))) = Inr 0 \<and>
   upstreamCalls (snd (acquire (test_client ''Test Description'') q_server args_123
          (release 0 (release 0 (release 0 acquired3))))) =
     [QueryCall q_server args_123, OnUpdateCall q_server args_123]"
proof -
  have existing: "activeWatches (release 0 acquired3) (cacheKey (watchRequest q_server args_123)) =
      Some \<lparr> liveData = 0, unsubscribe = 0, refCount = 2 \<rparr>"
    by (simp add: release1_of3 key_123_def)
  show ?thesis
    unfolding release_all_of3 acquire_existing [OF existing]
    by (simp add: release1_of3)
qed

text \<open>
  C6. The request is acquired twice and released once, which destroys the shared
  \<^verbatim>\<open>LiveData\<close>. When the upstream watch then fires, the closure's current value is
  the new description, but the \<^verbatim>\<open>LiveData\<close> the remaining holder reads still shows
  the old one. Without the release the same update is visible.
\<close>

theorem update_lost_after_partial_release:
  "map_option refCount (activeWatches (release 0 acquired2) key_123) = Some 1 \<and>
   data (release 0 acquired2) 0 = Value ''Test Description'' \<and>
   map_option currentValue
     (closures (upstreamUpdate 0 (Value ''A brand new description'') (release 0 acquired2)) 0) =
     Some (Value ''A brand new description'') \<and>
   data (upstreamUpdate 0 (Value ''A brand new description'') (release 0 acquired2)) 0 =
     Value ''Test Description'' \<and>
   data (upstreamUpdate 0 (Value ''A brand new description'') acquired2) 0 =
     Value ''A brand new description''"
  unfolding release1_of2
  by (simp add: acquired2_eq acquired1_eq upstreamUpdate_def runCallback_def data_def Let_def)

text \<open>
  C8. When no watch is registered for the key and the initial fetch fails, the
  acquisition fails with that error and the cache is left as it was: the only trace
  is the fetch in the log of upstream calls. No watch is registered for the key, and
  a later acquisition of the same key against a backend that answers fetches again,
  subscribes, and registers a new watch with count 1 whose \<^verbatim>\<open>LiveData\<close> holds the
  fetched value.
\<close>

theorem acquire_fetch_failure:
  assumes "activeWatches s (cacheKey (watchRequest q a)) = None"
    and "client_query cl q a = Inl err"
  shows "acquire cl q a s = (Inl err, s\<lparr> upstreamCalls := upstreamCalls s @ [QueryCall q a] \<rparr>) \<and>
         activeWatches (snd (acquire cl q a s)) (cacheKey (watchRequest q a)) = None \<and>
         (client_query cl' q a = Inr v \<and> client_onUpdate cl' q a = None \<longrightarrow>
            fst (acquire cl' q a (snd (acquire cl q a s))) = Inr (nextRef s) \<and>
            upstreamCalls (snd (acquire cl' q a (snd (acquire cl q a s)))) =
              upstreamCalls s @ [QueryCall q a, QueryCall q a, OnUpdateCall q a] \<and>
            activeWatches (snd (acquire cl' q a (snd (acquire cl q a s)))) (cacheKey (watchRequest q a)) =
              Some \<lparr> liveData = nextRef s, unsubscribe = nextRef s, refCount = 1 \<rparr> \<and>
            data (snd (acquire cl' q a (snd (acquire cl q a s)))) (nextRef s) = v)"
proof -
  have fail: "acquire cl q a s = (Inl err, s\<lparr> upstreamCalls := upstreamCalls s @ [QueryCall q a] \<rparr>)"
    using assms
    by (simp add: acquire_def watchResolver_step_def createWatch_def Let_def watchRequest_def)
  have none: "activeWatches (s\<lparr> upstreamCalls := upstreamCalls s @ [QueryCall q a] \<rparr>)
                (cacheKey (watchRequest q a)) = None"
    using assms(1) by simp
  show ?thesis
  proof (intro conjI impI)
    show "acquire cl q a s = (Inl err, s\<lparr> upstreamCalls := upstreamCalls s @ [QueryCall q a] \<rparr>)"
      by (rule fail)
    show "activeWatches (snd (acquire cl q a s)) (cacheKey (watchRequest q a)) = None"
      using none by (simp add: fail)
  next
    assume ok: "client_query cl' q a = Inr v \<and> client_onUpdate cl' q a = None"
    note again = acquire_fresh [OF none conjunct1 [OF ok] conjunct2 [OF ok]]
    show "fst (acquire cl' q a (snd (acquire cl q a s))) = Inr (nextRef s)"
      by (simp add: fail again)
    show "upstreamCalls (snd (acquire cl' q a (snd (acquire cl q a s)))) =
            upstreamCalls s @ [QueryCall q a, QueryCall q a, OnUpdateCall q a]"
      by (simp add: fail again)
    show "activeWatches (snd (acquire cl' q a (snd (acquire cl q a s)))) (cacheKey (watchRequest q a)) =
            Some \<lparr> liveData = nextRef s, unsubscribe = nextRef s, refCount = 1 \<rparr>"
      by (simp add: fail again)
    show "data (snd (acquire cl' q a (snd (acquire cl q a s)))) (nextRef s) = v"
      by (simp add: fail again data_def)
  qed
qed

theorem acquire_fetch_failure_witness:
  "acquire failing_client q_server args_123 initialState =
     (Inl (ConvexError ''Simulated ConvexError''),
      initialState\<lparr> upstreamCalls := [QueryCall q_server args_123] \<rparr>) \<and>
   activeWatches (snd (acquire failing_client q_server args_123 initialState)) key_123 = None \<and>
   fst (acquire (test_client ''Test Description'') q_server args_123
          (snd (acquire failing_client q_server args_123 initialState))) = Inr 0 \<and>
   data (snd (acquire (test_client ''Test Description'') q_server args_123
          (snd (acquire failing_client q_server args_123 initialState)))) 0 = Value ''Test Description''"
proof -
  have new: "activeWatches (initialState :: string CacheState)
               (cacheKey (watchRequest q_server args_123)) = None"
    by (simp add: initialState_def)
  have fails: "client_query failing_client q_server args_123 =
                 Inl (ConvexError ''Simulated ConvexError'')"
    by (simp add: failing_client_def)
  have ok: "client_query (test_client ''Test Description'') q_server args_123 =
               Inr (Value ''Test Description'') \<and>
             client_onUpdate (test_client ''Test Description'') q_server args_123 = None"
    by (simp add: test_client_def)
  have start: "nextRef (initialState :: string CacheState) = 0"
    "upstreamCalls (initialState :: string CacheState) = []"
    by (simp_all add: initialState_def)
  note w = acquire_fetch_failure [OF new fails, of "test_client ''Test Description''"
        "Value ''Test Description''", unfolded start append_Nil, folded key_123_def]
  from w ok show ?thesis by blast
qed


end
